theory Spec2Isabelle
  imports Complex_Main "HOL-Library.AList" "HOL-Library.Product_Lexorder"
begin

section \<open>The summarisation script \<open>alternative_summarizations.py\<close>\<close>

text \<open>
  The script compares extractive summarisation libraries. Each of its functions opens the
  input file, hands the text to a library (sumy, gensim, pyteaser, pytextrank) and returns
  what the library returned, converted to strings. The functions of those libraries are not
  part of the script: they are parameters of the model, total functions of their arguments;
  for \<open>sumySummarize\<close> a second embedding takes library calls that can raise.
  What the script itself does (opening and writing files, slicing, joining, building the
  result dictionary, dispatching on the menu choice) is modelled as it is written.
\<close>

subsection \<open>Files, errors, Python string helpers\<close>

type_synonym path = string

text \<open>The file system: the contents of each file that exists.\<close>

type_synonym files = "path \<rightharpoonup> string"

datatype error =
    FileNotFoundError path
  | IndexError
  | ValueError
  | LookupError
  | UnicodeDecodeError

text \<open>\<open>fh = open(p, "r"); text = fh.read(); fh.close()\<close>\<close>

definition read_file :: "files \<Rightarrow> path \<Rightarrow> error + string" where
  "read_file fs p = (case fs p of None \<Rightarrow> Inl (FileNotFoundError p) | Some t \<Rightarrow> Inr t)"

text \<open>\<open>fh = open(p, 'w'); fh.write(t); fh.close()\<close>: the file is created or replaced.\<close>

definition write_file :: "files \<Rightarrow> path \<Rightarrow> string \<Rightarrow> files" where
  "write_file fs p t = fs(p \<mapsto> t)"

text \<open>\<open>s.split(c)\<close> for a one-character separator: never empty.\<close>

fun split_str :: "char \<Rightarrow> string \<Rightarrow> string list" where
  "split_str sep [] = [[]]"
| "split_str sep (c # cs) =
     (if c = sep then [] # split_str sep cs
      else (case split_str sep cs of
              [] \<Rightarrow> [[c]]
            | w # ws \<Rightarrow> (c # w) # ws))"

text \<open>\<open>sep.join(xs)\<close>\<close>

fun join_str :: "string \<Rightarrow> string list \<Rightarrow> string" where
  "join_str sep [] = []"
| "join_str sep [x] = x"
| "join_str sep (x # y # ys) = x @ sep @ join_str sep (y # ys)"

text \<open>
  \<open>xs[:n]\<close>: a negative \<open>n\<close> counts from the end, and the stop index is clipped to the
  list.
\<close>

definition slice_to :: "'a list \<Rightarrow> int \<Rightarrow> 'a list" where
  "slice_to xs n = take (nat (if n < 0 then int (length xs) + n else n)) xs"

text \<open>\<open>re.sub("\"", '', text)\<close>: every double quote is removed.\<close>

definition remove_quotes :: "string \<Rightarrow> string" where
  "remove_quotes text = filter (\<lambda>c. c \<noteq> CHR 0x22) text"

subsection \<open>\<open>sumySummarize\<close>\<close>

datatype sumyAlgorithm =
    LuhnSummarizer
  | LsaSummarizer
  | TextRankSummarizer
  | LexRankSummarizer
  | SumBasicSummarizer
  | KLSummarizer

text \<open>
  The sumy library. \<open>parse_document text language\<close> is
  \<open>PlaintextParser(text, Tokenizer(language)).document\<close>;
  \<open>summarizer alg language doc n\<close> is the summariser \<open>alg\<close> built with
  \<open>Stemmer(language)\<close>, its \<open>stop_words\<close> set to \<open>get_stop_words(language)\<close>, called on
  \<open>(doc, n)\<close>; \<open>sentence_str\<close> is \<open>str\<close> on a sentence.
\<close>

record ('doc, 'sent) sumy =
  parse_document :: "string \<Rightarrow> string \<Rightarrow> 'doc"
  summarizer :: "sumyAlgorithm \<Rightarrow> string \<Rightarrow> 'doc \<Rightarrow> int \<Rightarrow> 'sent list"
  sentence_str :: "'sent \<Rightarrow> string"

definition getSummary ::
  "('doc, 'sent) sumy \<Rightarrow> string \<Rightarrow> 'doc \<Rightarrow> int \<Rightarrow> sumyAlgorithm \<Rightarrow> string list" where
  "getSummary L language document num_sents sumyAlgorithm =
     (let summary = summarizer L sumyAlgorithm language document num_sents;
          sents = map (sentence_str L) summary
      in sents)"

text \<open>
  The result dictionary is an association list in insertion order;
  \<open>summaries[k] = v\<close> is \<open>AList.update k v\<close>.
\<close>

definition sumySummarize ::
  "('doc, 'sent) sumy \<Rightarrow> files \<Rightarrow> path \<Rightarrow> string \<Rightarrow> int
     \<Rightarrow> (error + (string \<times> string list) list) \<times> files" where
  "sumySummarize L fs filename language num_sents =
     (case read_file fs filename of
        Inl e \<Rightarrow> (Inl e, fs)
      | Inr text \<Rightarrow>
          (let document = parse_document L text language;
               summaries = [];
               summaries = AList.update ''Luhn''
                 (getSummary L language document num_sents LuhnSummarizer) summaries;
               summaries = AList.update ''LSA''
                 (getSummary L language document num_sents LsaSummarizer) summaries;
               summaries = AList.update ''TextRank''
                 (getSummary L language document num_sents TextRankSummarizer) summaries;
               summaries = AList.update ''LexRank''
                 (getSummary L language document num_sents LexRankSummarizer) summaries;
               summaries = AList.update ''SumBasic''
                 (getSummary L language document num_sents SumBasicSummarizer) summaries;
               summaries = AList.update ''KL''
                 (getSummary L language document num_sents KLSummarizer) summaries
           in (Inr summaries, fs)))"

subsection \<open>\<open>sumySummarize\<close> with library calls that raise\<close>

text \<open>
  The library calls of lines 88 to 104 can raise: \<open>Tokenizer(language)\<close>,
  \<open>Stemmer(language)\<close> and \<open>get_stop_words(language)\<close> raise \<open>LookupError\<close> for a language
  the library does not know, \<open>from_file\<close> raises when the bytes it reads are not text in
  its encoding, and a summariser can raise. In the record below each call returns an
  error or its value: \<open>from_file body language\<close> is what \<open>PlaintextParser.from_file\<close> makes
  of the bytes \<open>body\<close> once the file is open, up to \<open>parser.document\<close>, and
  \<open>call_summarizer alg language doc n\<close> is the summariser \<open>alg\<close> called on \<open>(doc, n)\<close>.
\<close>

record ('doc, 'sent) sumy_calls =
  Tokenizer :: "string \<Rightarrow> error + unit"
  from_file :: "string \<Rightarrow> string \<Rightarrow> error + 'doc"
  Stemmer :: "string \<Rightarrow> error + unit"
  get_stop_words :: "string \<Rightarrow> error + unit"
  call_summarizer :: "sumyAlgorithm \<Rightarrow> string \<Rightarrow> 'doc \<Rightarrow> int \<Rightarrow> error + 'sent list"
  str_sentence :: "'sent \<Rightarrow> string"

text \<open>One statement after another: the first error ends the call, as the exception does.\<close>

definition and_then :: "error + 'a \<Rightarrow> ('a \<Rightarrow> error + 'b) \<Rightarrow> error + 'b" where
  "and_then r f = (case r of Inl e \<Rightarrow> Inl e | Inr x \<Rightarrow> f x)"

text \<open>
  \<open>getSummary\<close>, lines 90 to 94: the stop words are asked for, then the summariser is
  called.
\<close>

definition getSummary_raising ::
  "('doc, 'sent) sumy_calls \<Rightarrow> string \<Rightarrow> 'doc \<Rightarrow> int \<Rightarrow> sumyAlgorithm
     \<Rightarrow> error + string list" where
  "getSummary_raising L language document num_sents sumyAlgorithm =
     and_then (get_stop_words L language) (\<lambda>stop_words.
     and_then (call_summarizer L sumyAlgorithm language document num_sents) (\<lambda>summary.
     Inr (map (str_sentence L) summary)))"

text \<open>
  \<open>sumySummarize\<close>, lines 88 to 107, in the order in which the source evaluates: the
  tokenizer is built before the file is opened, the stemmer after the file is read, then
  the six summaries one after the other. The script has no \<open>try\<close>: whatever is raised
  leaves the function.
\<close>

definition sumySummarize_raising ::
  "('doc, 'sent) sumy_calls \<Rightarrow> files \<Rightarrow> path \<Rightarrow> string \<Rightarrow> int
     \<Rightarrow> (error + (string \<times> string list) list) \<times> files" where
  "sumySummarize_raising L fs filename language num_sents =
     (and_then (Tokenizer L language) (\<lambda>tokenizer.
      and_then (read_file fs filename) (\<lambda>body.
      and_then (from_file L body language) (\<lambda>document.
      and_then (Stemmer L language) (\<lambda>stemmer.
      and_then (getSummary_raising L language document num_sents LuhnSummarizer) (\<lambda>luhn.
      and_then (getSummary_raising L language document num_sents LsaSummarizer) (\<lambda>lsa.
      and_then (getSummary_raising L language document num_sents TextRankSummarizer) (\<lambda>textrank.
      and_then (getSummary_raising L language document num_sents LexRankSummarizer) (\<lambda>lexrank.
      and_then (getSummary_raising L language document num_sents SumBasicSummarizer) (\<lambda>sumbasic.
      and_then (getSummary_raising L language document num_sents KLSummarizer) (\<lambda>kl.
      Inr (AList.update ''KL'' kl
            (AList.update ''SumBasic'' sumbasic
              (AList.update ''LexRank'' lexrank
                (AList.update ''TextRank'' textrank
                  (AList.update ''LSA'' lsa
                    (AList.update ''Luhn'' luhn [])))))))))))))))),
      fs)"

text \<open>A library all of whose calls return: the one \<open>sumySummarize\<close> above is written for.\<close>

definition returning :: "('doc, 'sent) sumy \<Rightarrow> ('doc, 'sent) sumy_calls" where
  "returning L =
     \<lparr>Tokenizer = (\<lambda>language. Inr ()),
      from_file = (\<lambda>body language. Inr (parse_document L body language)),
      Stemmer = (\<lambda>language. Inr ()),
      get_stop_words = (\<lambda>language. Inr ()),
      call_summarizer = (\<lambda>alg language doc n. Inr (summarizer L alg language doc n)),
      str_sentence = sentence_str L\<rparr>"

subsection \<open>\<open>gensimSummarize\<close> and \<open>pyteasSummarize\<close>\<close>

text \<open>\<open>summarize\<close> is gensim's \<open>summarize(text, ratio)\<close>.\<close>

definition gensimSummarize ::
  "(string \<Rightarrow> rat \<Rightarrow> string) \<Rightarrow> files \<Rightarrow> path \<Rightarrow> rat \<Rightarrow> (error + string) \<times> files" where
  "gensimSummarize summarize fs filename coverage_fraction =
     (case read_file fs filename of
        Inl e \<Rightarrow> (Inl e, fs)
      | Inr text \<Rightarrow>
          (let summary = summarize text coverage_fraction
           in (Inr summary, fs)))"

text \<open>
  The pyteaser library: \<open>Summarize title text\<close> is its list of sentences, \<open>teaser_str\<close> is
  \<open>str\<close> on one of them.
\<close>

record 'sent pyteaser =
  Summarize :: "string \<Rightarrow> string \<Rightarrow> 'sent list"
  teaser_str :: "'sent \<Rightarrow> string"

definition pyteasSummarize ::
  "'sent pyteaser \<Rightarrow> files \<Rightarrow> path \<Rightarrow> string \<Rightarrow> int \<Rightarrow> (error + string) \<times> files" where
  "pyteasSummarize P fs filename title num_sents =
     (case read_file fs filename of
        Inl e \<Rightarrow> (Inl e, fs)
      | Inr text \<Rightarrow>
          (let summary = Summarize P title text;
               sents = join_str '' '' (map (teaser_str P) (slice_to summary num_sents))
           in (Inr sents, fs)))"

subsection \<open>\<open>createJSON\<close>\<close>

text \<open>The values handed to \<open>json.dumps\<close>; \<open>json.dumps\<close> itself is a parameter.\<close>

datatype json = JInt int | JString string | JObject "(string \<times> json) list"

definition createJSON ::
  "(json \<Rightarrow> string) \<Rightarrow> files \<Rightarrow> path \<Rightarrow> (error + path) \<times> files" where
  "createJSON dumps fs filename =
     (case read_file fs filename of
        Inl e \<Rightarrow> (Inl e, fs)
      | Inr text \<Rightarrow>
          (let text = remove_quotes text;
               d = [];
               d = AList.update ''id'' (JInt 707) d;
               d = AList.update ''text'' (JString text) d
           in (case split_str CHR ''.'' filename of
                 [] \<Rightarrow> (Inl IndexError, fs)
               | stem # _ \<Rightarrow>
                   (let jsonFile = stem @ ''.json''
                    in (Inr jsonFile, write_file fs jsonFile (dumps (JObject d)))))))"

subsection \<open>\<open>pytrankSummarize\<close>\<close>

text \<open>
  The pytextrank library works from file to file. Each of its functions that takes a path
  is modelled on the contents of that file; the values it passes around are of one type
  \<open>'v\<close>. \<open>parse_doc c\<close> is \<open>parse_doc(json_iter(path))\<close> for a file with contents \<open>c\<close>,
  \<open>pretty_print x\<close> is \<open>pretty_print(x._asdict())\<close>, \<open>text_rank c\<close> is the \<open>ranks\<close> of
  \<open>text_rank(path)\<close>. The key phrases of \<open>limit_keyphrases\<close> are computed by the script
  and not used in its result; they are left out.
\<close>

record 'v pytextrank =
  parse_doc :: "string \<Rightarrow> 'v list"
  pretty_print :: "'v \<Rightarrow> string"
  text_rank :: "string \<Rightarrow> 'v"
  normalize_key_phrases :: "string \<Rightarrow> 'v \<Rightarrow> 'v list"
  rank_kernel :: "string \<Rightarrow> 'v"
  top_sentences :: "'v \<Rightarrow> string \<Rightarrow> 'v list"
  limit_sentences :: "string \<Rightarrow> nat \<Rightarrow> ('v \<times> int) list"
  make_sentence :: "'v \<Rightarrow> string"

text \<open>\<open>for x in xs: f.write("%s\n" % x)\<close>\<close>

definition write_lines :: "string list \<Rightarrow> string" where
  "write_lines ls = concat (map (\<lambda>l. l @ [CHR 0x0A]) ls)"

text \<open>
  \<open>with open(path_stage1, 'w')\<close> empties \<open>o1.json\<close> before the generator \<open>json_iter\<close>
  reads \<open>path_stage0\<close>, so stage 0 is read from the file system after that.
\<close>

definition pytrankSummarize ::
  "(json \<Rightarrow> string) \<Rightarrow> 'v pytextrank \<Rightarrow> files \<Rightarrow> path \<Rightarrow> (error + string) \<times> files" where
  "pytrankSummarize dumps T fs filename =
     (case createJSON dumps fs filename of
        (Inl e, fs) \<Rightarrow> (Inl e, fs)
      | (Inr jsonText, fs) \<Rightarrow>
          (let path_stage0 = jsonText;
               path_stage1 = ''o1.json'';
               fs = write_file fs path_stage1 []
           in case read_file fs path_stage0 of
                Inl e \<Rightarrow> (Inl e, fs)
              | Inr c0 \<Rightarrow>
          (let fs = write_file fs path_stage1
                      (write_lines (map (pretty_print T) (parse_doc T c0)));
               path_stage2 = ''o2.json''
           in case read_file fs path_stage1 of
                Inl e \<Rightarrow> (Inl e, fs)
              | Inr c1 \<Rightarrow>
          (let ranks = text_rank T c1;
               fs = write_file fs path_stage2
                      (write_lines (map (pretty_print T) (normalize_key_phrases T c1 ranks)));
               path_stage3 = ''o3.json''
           in case read_file fs path_stage2 of
                Inl e \<Rightarrow> (Inl e, fs)
              | Inr c2 \<Rightarrow>
          (let kernel = rank_kernel T c2;
               fs = write_file fs path_stage3
                      (write_lines (map (pretty_print T) (top_sentences T kernel c1)))
           in case read_file fs path_stage3 of
                Inl e \<Rightarrow> (Inl e, fs)
              | Inr c3 \<Rightarrow>
          (let sent_iter = sort_key snd (limit_sentences T c3 50);
               s = map (\<lambda>(sent_text, idx). make_sentence T sent_text) sent_iter;
               graf_text = join_str '' '' s
           in (Inr graf_text, fs)))))))"

subsection \<open>The menu and the main program\<close>

text \<open>
  \<open>reply\<close> is what \<open>int(input(...))\<close> makes of the line typed: \<open>None\<close> when it is not an
  integer, and \<open>int\<close> raises. The second component is what has been printed.
\<close>

definition menu :: "string list" where
  "menu = ['' '', ''Algorithm/library choices for summarization ... '',
           ''1. Sumy (all algorithms)'', ''2. Gensim'', ''3. PyTeaser'', ''4. PyTextRank'',
           '' '', ''Enter your choice: '']"

definition getAlgorithmChoice :: "int option \<Rightarrow> (error + int) \<times> string list" where
  "getAlgorithmChoice reply =
     (case reply of
        None \<Rightarrow> (Inl ValueError, menu)
      | Some ch \<Rightarrow> (Inr ch, menu))"

text \<open>The main program drops what the summariser returns.\<close>

definition discard :: "(error + 'a) \<times> files \<Rightarrow> string list \<Rightarrow> (error + unit) \<times> files \<times> string list" where
  "discard r out = (case r of (Inl e, fs) \<Rightarrow> (Inl e, fs, out) | (Inr _, fs) \<Rightarrow> (Inr (), fs, out))"

definition main_script ::
  "('doc, 'sent) sumy \<Rightarrow> (string \<Rightarrow> rat \<Rightarrow> string) \<Rightarrow> 'ts pyteaser \<Rightarrow> (json \<Rightarrow> string)
     \<Rightarrow> 'v pytextrank \<Rightarrow> int option \<Rightarrow> files \<Rightarrow> (error + unit) \<times> files \<times> string list" where
  "main_script L summarize P dumps T reply fs =
     (let TEXT_FILE = ''sample_text.txt'';
          LANGUAGE = ''english'';
          SENTENCE_COUNT = 2
      in case getAlgorithmChoice reply of
           (Inl e, out) \<Rightarrow> (Inl e, fs, out)
         | (Inr choice, out) \<Rightarrow>
             if choice = 1 then
               discard (sumySummarize L fs TEXT_FILE LANGUAGE SENTENCE_COUNT) out
             else if choice = 2 then
               discard (gensimSummarize summarize fs TEXT_FILE (2 / 10)) out
             else if choice = 3 then
               discard (pyteasSummarize P fs TEXT_FILE ''Topic Modelling'' SENTENCE_COUNT) out
             else if choice = 4 then
               discard (pytrankSummarize dumps T fs TEXT_FILE) out
             else (Inr (), fs, out @ [''Wrong choice'']))"

subsection \<open>A small instance of the libraries, for evaluation\<close>

text \<open>
  Sentences are the lines of the text; every summariser returns the first sentences;
  \<open>json.dumps\<close> prints integers in decimal and strings without escapes.
\<close>

definition example_sumy :: "(string list, string) sumy" where
  "example_sumy =
     \<lparr>parse_document = (\<lambda>text language. split_str (CHR 0x0A) text),
      summarizer = (\<lambda>alg language doc n. slice_to doc n),
      sentence_str = (\<lambda>s. s)\<rparr>"

text \<open>
  The same library with calls that raise: it knows English only, and it refuses a text
  with the byte \<open>0xFF\<close>, which no UTF-8 text contains.
\<close>

definition example_sumy_calls :: "(string list, string) sumy_calls" where
  "example_sumy_calls =
     \<lparr>Tokenizer = (\<lambda>language. if language = ''english'' then Inr () else Inl LookupError),
      from_file = (\<lambda>body language.
         if CHR 0xFF \<in> set body then Inl UnicodeDecodeError
         else Inr (split_str (CHR 0x0A) body)),
      Stemmer = (\<lambda>language. if language = ''english'' then Inr () else Inl LookupError),
      get_stop_words =
        (\<lambda>language. if language = ''english'' then Inr () else Inl LookupError),
      call_summarizer = (\<lambda>alg language doc n. Inr (slice_to doc n)),
      str_sentence = (\<lambda>s. s)\<rparr>"

definition example_pyteaser :: "string pyteaser" where
  "example_pyteaser =
     \<lparr>Summarize = (\<lambda>title text. split_str (CHR 0x0A) text),
      teaser_str = (\<lambda>s. s)\<rparr>"

definition example_gensim :: "string \<Rightarrow> rat \<Rightarrow> string" where
  "example_gensim text ratio = takeWhile (\<lambda>c. c \<noteq> CHR 0x0A) text"

fun decimal :: "nat \<Rightarrow> string" where
  "decimal n =
     (if n < 10 then [''0123456789'' ! n]
      else decimal (n div 10) @ [''0123456789'' ! (n mod 10)])"

fun example_dumps :: "json \<Rightarrow> string" where
  "example_dumps (JInt n) = (if n < 0 then ''-'' else []) @ decimal (nat \<bar>n\<bar>)"
| "example_dumps (JString s) = [CHR 0x22] @ s @ [CHR 0x22]"
| "example_dumps (JObject kvs) =
     ''{'' @ join_str '', '' (map (\<lambda>(k, v). [CHR 0x22] @ k @ [CHR 0x22] @ '': '' @ example_dumps v) kvs)
       @ ''}''"

definition example_pytextrank :: "string pytextrank" where
  "example_pytextrank =
     \<lparr>parse_doc = (\<lambda>c. [c]),
      pretty_print = (\<lambda>x. x),
      text_rank = (\<lambda>c. c),
      normalize_key_phrases = (\<lambda>c ranks. [ranks]),
      rank_kernel = (\<lambda>c. c),
      top_sentences = (\<lambda>kernel c. [c]),
      limit_sentences = (\<lambda>c word_limit. [(c, 0)]),
      make_sentence = (\<lambda>x. x)\<rparr>"

definition example_files :: files where
  "example_files =
     [''sample_text.txt'' \<mapsto>
        ''The '' @ [CHR 0x22] @ ''cat'' @ [CHR 0x22] @ '' sat.'' @ [CHR 0x0A] @ ''Dogs bark.'']"

subsection \<open>A name used in the statements\<close>

text \<open>The name of the JSON file: the file name up to its first dot, then \<open>.json\<close>.\<close>

definition jsonFile_of :: "path \<Rightarrow> path" where
  "jsonFile_of filename = takeWhile (\<lambda>c. c \<noteq> CHR ''.'') filename @ ''.json''"

text \<open>The errors that some call of the sumy library raises on some arguments.\<close>

definition library_errors :: "('doc, 'sent) sumy_calls \<Rightarrow> error set" where
  "library_errors L =
     {e. (\<exists>language. Tokenizer L language = Inl e) \<or>
         (\<exists>body language. from_file L body language = Inl e) \<or>
         (\<exists>language. Stemmer L language = Inl e) \<or>
         (\<exists>language. get_stop_words L language = Inl e) \<or>
         (\<exists>alg language doc n. call_summarizer L alg language doc n = Inl e)}"

section \<open>The summarisation algorithms, modelled from the spec\<close>

text \<open>
  The scoring algorithms themselves (Luhn, SumBasic, the graph ranking) run inside the
  sumy library that \<open>sumySummarize\<close> calls; the script holds none of their code. The
  definitions of this section follow the spec's description of them (its sections 3, 4.2,
  4.3, 4.5 and 6), over exact rational numbers.
\<close>

subsection \<open>Data model and frequency model\<close>

text \<open>
  Modelled from the spec: the Token of the data model (surface form, stemmed form,
  stopword flag), built by the library's tokenizer, which is not in the script.
\<close>

record token =
  surface :: string
  stem :: string
  stopword :: bool

text \<open>
  Modelled from the spec: the Sentence of the data model (surface text, 0-based position,
  tokens in order) and the Document, the sentences in source order; both are built by the
  library's parser, which is not in the script.
\<close>

record sentence =
  surface_text :: string
  position :: nat
  tokens :: "token list"

type_synonym document = "sentence list"

text \<open>
  Modelled from the spec: the terms of the FrequencyModel, the stems of the tokens that
  are not stopwords, in order; the model is built inside the library.
\<close>

definition terms_of :: "sentence \<Rightarrow> string list" where
  "terms_of s = map stem (filter (\<lambda>t. \<not> stopword t) (tokens s))"

text \<open>
  Modelled from the spec: the terms of the whole document, sentence after sentence, which
  the library's FrequencyModel counts.
\<close>

definition doc_terms :: "document \<Rightarrow> string list" where
  "doc_terms doc = concat (map terms_of doc)"

text \<open>
  Modelled from the spec: the global term frequency \<open>tf(term)\<close> of the FrequencyModel,
  computed inside the library.
\<close>

definition tf :: "document \<Rightarrow> string \<Rightarrow> nat" where
  "tf doc w = count_list (doc_terms doc) w"

text \<open>
  Modelled from the spec: the distinct terms in the order of their first occurrence in
  the document, the order in which \<open>topWords(n)\<close> of the library's FrequencyModel breaks
  ties between equally frequent terms.
\<close>

definition first_occurrences :: "'a list \<Rightarrow> 'a list" where
  "first_occurrences xs = rev (remdups (rev xs))"

text \<open>
  Modelled from the spec: \<open>topWords(n)\<close> of the library's FrequencyModel, by a stable sort
  of the distinct terms on descending frequency.
\<close>

definition topWords :: "nat \<Rightarrow> document \<Rightarrow> string list" where
  "topWords n doc =
     take n (sort_key (\<lambda>w. - int (tf doc w)) (first_occurrences (doc_terms doc)))"

text \<open>
  Modelled from the spec: the recognised configuration options and their defaults
  (damping factor 0.85, convergence epsilon 1e-4, at most 100 iterations, Luhn cluster gap
  4, 100 top words); the library's own settings are not in the script.
\<close>

record configuration =
  damping_factor :: rat
  convergence_epsilon :: rat
  max_iterations :: nat
  luhn_cluster_gap :: nat
  top_word_count :: nat

definition default_configuration :: configuration where
  "default_configuration =
     \<lparr>damping_factor = 85 / 100, convergence_epsilon = 1 / 10000, max_iterations = 100,
      luhn_cluster_gap = 4, top_word_count = 100\<rparr>"

subsection \<open>SentenceSelector\<close>

text \<open>
  Modelled from the spec: the ranking made by the SentenceSelector, which is part of the
  library: the sentence positions sorted by score descending, ties by ascending position.
\<close>

definition ranking :: "rat list \<Rightarrow> nat list" where
  "ranking scores = sort_key (\<lambda>i. (- (scores ! i), i)) [0..<length scores]"

text \<open>
  Modelled from the spec: the output of the library's SentenceSelector, the first \<open>k\<close>
  positions of the ranking in original document order.
\<close>

definition select_top :: "rat list \<Rightarrow> nat \<Rightarrow> nat list" where
  "select_top scores k = sort (take k (ranking scores))"

subsection \<open>Luhn scoring\<close>

text \<open>
  Modelled from the spec: the positions, in a sentence's token sequence, of the
  occurrences of top words (tokens that are not stopwords and whose stem is a top word);
  found inside the library's Luhn summariser.
\<close>

definition significant_positions :: "string set \<Rightarrow> sentence \<Rightarrow> nat list" where
  "significant_positions tw s =
     filter (\<lambda>i. \<not> stopword (tokens s ! i) \<and> stem (tokens s ! i) \<in> tw)
       [0..<length (tokens s)]"

text \<open>
  Modelled from the spec: the clusters of the Luhn summariser of the library. A cluster
  ends when the gap between consecutive significant positions exceeds the threshold.
\<close>

fun clusters :: "nat \<Rightarrow> nat list \<Rightarrow> nat list list" where
  "clusters gap [] = []"
| "clusters gap [p] = [[p]]"
| "clusters gap (p # q # ps) =
     (if gap < q - p then [p] # clusters gap (q # ps)
      else (case clusters gap (q # ps) of
              [] \<Rightarrow> [[p]]
            | c # cs \<Rightarrow> (p # c) # cs))"

text \<open>
  Modelled from the spec: the score of one cluster in the library's Luhn summariser, the
  square of the number of its top words over the length of its span.
\<close>

definition cluster_score :: "nat list \<Rightarrow> rat" where
  "cluster_score c = (of_nat (length c))\<^sup>2 / of_nat (last c - hd c + 1)"

text \<open>
  Modelled from the spec: the Luhn score of a sentence in the library, the score of its
  best cluster, and 0 for a sentence with no top words.
\<close>

definition luhn_score :: "string set \<Rightarrow> nat \<Rightarrow> sentence \<Rightarrow> rat" where
  "luhn_score tw gap s =
     (case clusters gap (significant_positions tw s) of
        [] \<Rightarrow> 0
      | c # cs \<Rightarrow> fold max (map cluster_score cs) (cluster_score c))"

text \<open>
  Modelled from the spec: the ScoreVector of the library's Luhn strategy, the Luhn score
  of every sentence with the configured number of top words and cluster gap.
\<close>

definition luhn_scores :: "configuration \<Rightarrow> document \<Rightarrow> rat list" where
  "luhn_scores cfg doc =
     map (luhn_score (set (topWords (top_word_count cfg) doc)) (luhn_cluster_gap cfg)) doc"

text \<open>
  Modelled from the spec: the positions that the library's Luhn strategy returns for
  \<open>k\<close>, chosen by the SentenceSelector from the Luhn scores.
\<close>

definition luhn_select :: "configuration \<Rightarrow> document \<Rightarrow> nat \<Rightarrow> nat list" where
  "luhn_select cfg doc k = select_top (luhn_scores cfg doc) k"

subsection \<open>Graph ranking by power iteration\<close>

type_synonym vector = "rat list"
type_synonym matrix = "rat list list"

text \<open>
  Modelled from the spec: the product \<open>M\<^sup>T p\<close> in a step \<open>p \<mapsto> (1 - d) + d \<cdot> M\<^sup>T p\<close> of
  the power iteration of the library's graph ranking (TextRank, LexRank), \<open>M\<close> the
  transition matrix as a list of rows.
\<close>

definition transpose_mult :: "matrix \<Rightarrow> vector \<Rightarrow> vector" where
  "transpose_mult M p =
     map (\<lambda>j. sum_list (map (\<lambda>i. M ! i ! j * p ! i) [0..<length p])) [0..<length p]"

text \<open>
  Modelled from the spec: the step itself, \<open>(1 - d) + d \<cdot> x\<close> on every component \<open>x\<close> of
  \<open>M\<^sup>T p\<close>, inside the library's ranking loop.
\<close>

definition rank_step :: "rat \<Rightarrow> matrix \<Rightarrow> vector \<Rightarrow> vector" where
  "rank_step d M p = map (\<lambda>x. (1 - d) + d * x) (transpose_mult M p)"

text \<open>
  Modelled from the spec: the L1 distance between two iterates, which the library's
  ranking loop compares with epsilon.
\<close>

definition l1_distance :: "vector \<Rightarrow> vector \<Rightarrow> rat" where
  "l1_distance p q = sum_list (map (\<lambda>(x, y). \<bar>x - y\<bar>) (zip p q))"

text \<open>
  Modelled from the spec: the ranking loop of the library. It steps until the L1 change
  is below epsilon or the iteration cap is reached, and returns the last iterate, the
  number of steps made, and whether it converged (when not, the caller is warned of
  NonConvergence and still gets the iterate).
\<close>

function power_iteration ::
  "rat \<Rightarrow> rat \<Rightarrow> nat \<Rightarrow> matrix \<Rightarrow> nat \<Rightarrow> vector \<Rightarrow> vector \<times> nat \<times> bool" where
  "power_iteration d eps cap M t p =
     (if t < cap then
        (let p' = rank_step d M p
         in if l1_distance p' p < eps then (p', Suc t, True)
            else power_iteration d eps cap M (Suc t) p')
      else (p, t, False))"
  by pat_completeness auto
termination
  by (relation "measure (\<lambda>(d, eps, cap, M, t, p). cap - t)") auto

declare power_iteration.simps [simp del]

text \<open>Modelled from the spec: the uniform initial vector of the library's ranking.\<close>

definition uniform :: "nat \<Rightarrow> vector" where
  "uniform n = replicate n (1 / of_nat n)"

text \<open>
  Modelled from the spec: the GraphRank ranking of the library, the power iteration from
  the uniform vector with the configured damping factor, epsilon and cap.
\<close>

definition graph_rank :: "configuration \<Rightarrow> matrix \<Rightarrow> vector \<times> nat \<times> bool" where
  "graph_rank cfg M =
     power_iteration (damping_factor cfg) (convergence_epsilon cfg) (max_iterations cfg) M 0
       (uniform (length M))"

subsection \<open>SumBasic\<close>

text \<open>
  Modelled from the spec: step 1 of the library's SumBasic, the initial word probability
  \<open>count(w) / totalWords\<close>.
\<close>

definition word_probability :: "document \<Rightarrow> string \<Rightarrow> rat" where
  "word_probability doc w =
     (if doc_terms doc = [] then 0 else of_nat (tf doc w) / of_nat (length (doc_terms doc)))"

text \<open>
  Modelled from the spec: the average used in step 2 of the library's SumBasic, 0 for a
  sentence without terms.
\<close>

definition average :: "rat list \<Rightarrow> rat" where
  "average xs = (if xs = [] then 0 else sum_list xs / of_nat (length xs))"

text \<open>
  Modelled from the spec: the SumBasic score of the library, the average over the
  distinct terms of the sentence.
\<close>

definition sumbasic_score :: "(string \<Rightarrow> rat) \<Rightarrow> sentence \<Rightarrow> rat" where
  "sumbasic_score p s = average (map p (remdups (terms_of s)))"

text \<open>
  Modelled from the spec: step 4 of the library's SumBasic, the WordProbabilityTable
  after a sentence has been selected.
\<close>

definition decay :: "(string \<Rightarrow> rat) \<Rightarrow> sentence \<Rightarrow> string \<Rightarrow> rat" where
  "decay p s w = (if w \<in> set (terms_of s) then (p w)\<^sup>2 else p w)"

text \<open>
  Modelled from the spec: one iteration of the library's SumBasic as it can be observed,
  the probability table in force, the scores of the sentences still to choose from, and
  the position selected.
\<close>

record sumbasic_iteration =
  table :: "string \<Rightarrow> rat"
  scores :: "(nat \<times> rat) list"
  pick :: nat

text \<open>
  Modelled from the spec: steps 2 to 5 of the library's SumBasic. Each iteration scores
  the remaining sentences, selects the highest score (ties: earliest position), decays
  the probabilities of its words, and goes on until \<open>k\<close> sentences are chosen or none
  remains.
\<close>

fun sumbasic_loop ::
  "nat \<Rightarrow> document \<Rightarrow> (string \<Rightarrow> rat) \<Rightarrow> nat list \<Rightarrow> sumbasic_iteration list" where
  "sumbasic_loop 0 doc p remaining = []"
| "sumbasic_loop (Suc k) doc p remaining =
     (let sc = map (\<lambda>i. (i, sumbasic_score p (doc ! i))) remaining
      in case sort_key (\<lambda>(i, x). (- x, i)) sc of
           [] \<Rightarrow> []
         | (i, x) # _ \<Rightarrow>
             \<lparr>table = p, scores = sc, pick = i\<rparr>
               # sumbasic_loop k doc (decay p (doc ! i)) (remove1 i remaining))"

text \<open>
  Modelled from the spec: a run of the library's SumBasic on a document, from the initial
  probabilities and all sentences.
\<close>

definition sumbasic_run :: "document \<Rightarrow> nat \<Rightarrow> sumbasic_iteration list" where
  "sumbasic_run doc k = sumbasic_loop k doc (word_probability doc) [0..<length doc]"

text \<open>
  Modelled from the spec: the positions that the library's SumBasic returns, the picks of
  the run put back into document order.
\<close>

definition sumbasic_select :: "document \<Rightarrow> nat \<Rightarrow> nat list" where
  "sumbasic_select doc k = sort (map pick (sumbasic_run doc k))"

subsection \<open>The spec's example document\<close>

text \<open>
  Modelled from the spec: the document of the spec's end-to-end example, three sentences,
  tokenised by hand in place of the library's tokenizer (lower case, stem equal to the
  surface form, stopwords \<open>the\<close> and \<open>on\<close>).
\<close>

definition is_stop :: "string \<Rightarrow> bool" where
  "is_stop w = (w \<in> {''the'', ''on''})"

definition tok :: "string \<Rightarrow> token" where
  "tok w = \<lparr>surface = w, stem = w, stopword = is_stop w\<rparr>"

definition example_document :: document where
  "example_document =
     [\<lparr>surface_text = ''The cat sat.'', position = 0,
         tokens = map tok [''the'', ''cat'', ''sat'']\<rparr>,
      \<lparr>surface_text = ''The cat sat on the mat.'', position = 1,
         tokens = map tok [''the'', ''cat'', ''sat'', ''on'', ''the'', ''mat'']\<rparr>,
      \<lparr>surface_text = ''Dogs bark loudly.'', position = 2,
         tokens = map tok [''dogs'', ''bark'', ''loudly'']\<rparr>]"

section \<open>Properties\<close>

subsection \<open>Helper lemmas\<close>

lemma split_str_takeWhile:
  "split_str sep s = takeWhile (\<lambda>c. c \<noteq> sep) s # tl (split_str sep s)"
  by (induction s) (auto split: list.splits)


lemma createJSON_Some:
  assumes "fs filename = Some body"
  shows "createJSON dumps fs filename =
     (Inr (jsonFile_of filename),
      fs(jsonFile_of filename \<mapsto>
           dumps (JObject [(''id'', JInt 707), (''text'', JString (remove_quotes body))])))"
proof -
  obtain ws where ws:
    "split_str CHR ''.'' filename = takeWhile (\<lambda>c. c \<noteq> CHR ''.'') filename # ws"
    using split_str_takeWhile by blast
  show ?thesis
    using assms
    by (simp add: createJSON_def read_file_def ws write_file_def jsonFile_of_def Let_def)
qed

lemma createJSON_None:
  "fs filename = None \<Longrightarrow> createJSON dumps fs filename = (Inl (FileNotFoundError filename), fs)"
  by (simp add: createJSON_def read_file_def)

lemma sumySummarize_Some:
  assumes "fs filename = Some body"
  shows "sumySummarize L fs filename language num_sents =
     (Inr [(''Luhn'', map (sentence_str L)
              (summarizer L LuhnSummarizer language (parse_document L body language) num_sents)),
           (''LSA'', map (sentence_str L)
              (summarizer L LsaSummarizer language (parse_document L body language) num_sents)),
           (''TextRank'', map (sentence_str L)
              (summarizer L TextRankSummarizer language (parse_document L body language) num_sents)),
           (''LexRank'', map (sentence_str L)
              (summarizer L LexRankSummarizer language (parse_document L body language) num_sents)),
           (''SumBasic'', map (sentence_str L)
              (summarizer L SumBasicSummarizer language (parse_document L body language) num_sents)),
           (''KL'', map (sentence_str L)
              (summarizer L KLSummarizer language (parse_document L body language) num_sents))],
      fs)"
  using assms by (simp add: sumySummarize_def read_file_def getSummary_def Let_def)

lemma sumySummarize_None:
  "fs filename = None \<Longrightarrow>
   sumySummarize L fs filename language num_sents = (Inl (FileNotFoundError filename), fs)"
  by (simp add: sumySummarize_def read_file_def)

lemma main_script_wrong_choice:
  assumes "choice \<notin> {1, 2, 3, 4}"
  shows "main_script L G P D T (Some choice) fs = (Inr (), fs, menu @ [''Wrong choice''])"
  using assms by (simp add: main_script_def getAlgorithmChoice_def)

lemma and_then_Inr [simp]: "and_then (Inr x) f = f x"
  by (simp add: and_then_def)

lemma and_then_Inl [simp]: "and_then (Inl e) f = Inl e"
  by (simp add: and_then_def)

lemma and_then_eq_Inl:
  "and_then r f = Inl e \<Longrightarrow> r = Inl e \<or> (\<exists>x. r = Inr x \<and> f x = Inl e)"
  by (cases r) simp_all

text \<open>With a library whose calls all return, the two embeddings agree.\<close>

lemma sumySummarize_raising_returning:
  "sumySummarize_raising (returning L) fs filename language num_sents =
     sumySummarize L fs filename language num_sents"
  by (cases "fs filename")
     (simp_all add: sumySummarize_raising_def sumySummarize_def returning_def
        getSummary_raising_def getSummary_def read_file_def Let_def)

lemma getSummary_raising_Inl:
  "getSummary_raising L language document num_sents alg = Inl e \<Longrightarrow> e \<in> library_errors L"
  unfolding getSummary_raising_def library_errors_def
  by (auto dest!: and_then_eq_Inl)

lemma read_file_Inl:
  "read_file fs p = Inl e \<Longrightarrow> fs p = None \<and> e = FileNotFoundError p"
  by (auto simp add: read_file_def split: option.splits)

lemma sumySummarize_raising_Inl:
  assumes "fst (sumySummarize_raising L fs filename language num_sents) = Inl e"
  shows "(fs filename = None \<and> e = FileNotFoundError filename) \<or> e \<in> library_errors L"
proof -
  have lib: "Tokenizer L l = Inl e \<Longrightarrow> e \<in> library_errors L"
    "from_file L b l = Inl e \<Longrightarrow> e \<in> library_errors L"
    "Stemmer L l = Inl e \<Longrightarrow> e \<in> library_errors L" for l b
    by (auto simp add: library_errors_def)
  from assms show ?thesis
    unfolding sumySummarize_raising_def fst_conv
    by (auto dest!: and_then_eq_Inl dest: lib getSummary_raising_Inl read_file_Inl)
qed

lemma sumySummarize_raising_Inr:
  assumes "Tokenizer L language = Inr ()" and "fs filename = Some body"
    and "from_file L body language = Inr document" and "Stemmer L language = Inr ()"
    and "get_stop_words L language = Inr ()"
    and "\<forall>alg. call_summarizer L alg language document num_sents = Inr (summary alg)"
  shows "sumySummarize_raising L fs filename language num_sents =
     (Inr [(''Luhn'', map (str_sentence L) (summary LuhnSummarizer)),
           (''LSA'', map (str_sentence L) (summary LsaSummarizer)),
           (''TextRank'', map (str_sentence L) (summary TextRankSummarizer)),
           (''LexRank'', map (str_sentence L) (summary LexRankSummarizer)),
           (''SumBasic'', map (str_sentence L) (summary SumBasicSummarizer)),
           (''KL'', map (str_sentence L) (summary KLSummarizer))], fs)"
  using assms
  by (simp add: sumySummarize_raising_def getSummary_raising_def read_file_def)

lemma pytrankSummarize_frame:
  assumes "p \<notin> {jsonFile_of filename, ''o1.json'', ''o2.json'', ''o3.json''}"
  shows "snd (pytrankSummarize dumps T fs filename) p = fs p"
proof (cases "fs filename")
  case None
  then show ?thesis
    by (simp add: pytrankSummarize_def createJSON_None)
next
  case (Some body)
  show ?thesis
    using assms createJSON_Some [of fs filename body dumps] Some
    by (cases "jsonFile_of filename = ''o1.json''")
       (simp_all add: pytrankSummarize_def read_file_def write_file_def Let_def)
qed

lemma pytrankSummarize_writes:
  assumes "fs filename = Some body"
  shows "{jsonFile_of filename, ''o1.json'', ''o2.json'', ''o3.json''}
           \<subseteq> dom (snd (pytrankSummarize dumps T fs filename))"
  using assms createJSON_Some [of fs filename body dumps]
  by (cases "jsonFile_of filename = ''o1.json''")
     (auto simp add: pytrankSummarize_def read_file_def write_file_def Let_def)

lemma example_files_sample:
  "example_files ''sample_text.txt'' =
     Some (''The '' @ [CHR 0x22] @ ''cat'' @ [CHR 0x22] @ '' sat.'' @ [CHR 0x0A] @ ''Dogs bark.'')"
  by (simp add: example_files_def)

subsection \<open>The entry point \<open>sumySummarize\<close>\<close>




subsection \<open>Errors of the entry point and of the main program\<close>

text \<open>
  Claim C2 as written: the facade fails with InvalidRequest when the count is not
  positive, with EmptyDocument on a document without sentences, and with UnknownAlgorithm
  on an unrecognised identifier. The script checks none of these. With a count of 0 the
  entry point returns its dictionary, and the main program answers the choice 5, which
  names no algorithm, by printing a line and ending normally.
\<close>

theorem no_request_validation_example:
  "fst (sumySummarize example_sumy example_files ''sample_text.txt'' ''english'' 0) =
     Inr [(''Luhn'', []), (''LSA'', []), (''TextRank'', []), (''LexRank'', []),
          (''SumBasic'', []), (''KL'', [])] \<and>
   main_script example_sumy example_gensim example_pyteaser example_dumps example_pytextrank
     (Some 5) example_files = (Inr (), example_files, menu @ [''Wrong choice''])"
  using sumySummarize_Some [of example_files "''sample_text.txt''" _ example_sumy "''english''" 0]
  by (simp add: example_files_sample example_sumy_def slice_to_def main_script_wrong_choice)

text \<open>
  Claim C2, amended: \<open>sumySummarize\<close> checks neither the sentence count nor the document
  nor an algorithm identifier, and raises no error of its own. For every count (zero and
  negative too) and every text (the empty one too), when the input file opens and the
  library calls return, it returns the dictionary of what the six summarisers returned.
  When it fails, the error is the one of \<open>open\<close> on a missing file or one that a library
  call raised (an unsupported language, an undecodable file), passed on as it is. The main
  program, given a choice other than 1, 2, 3 or 4, prints \<open>Wrong choice\<close>, touches no file
  and raises nothing.
\<close>

theorem sumySummarize_raises_nothing_of_its_own:
  "(Tokenizer L language = Inr () \<and> fs filename = Some body \<and>
    from_file L body language = Inr document \<and> Stemmer L language = Inr () \<and>
    get_stop_words L language = Inr () \<and>
    (\<forall>alg. call_summarizer L alg language document num_sents = Inr (summary alg)) \<longrightarrow>
      fst (sumySummarize_raising L fs filename language num_sents) =
        Inr [(''Luhn'', map (str_sentence L) (summary LuhnSummarizer)),
             (''LSA'', map (str_sentence L) (summary LsaSummarizer)),
             (''TextRank'', map (str_sentence L) (summary TextRankSummarizer)),
             (''LexRank'', map (str_sentence L) (summary LexRankSummarizer)),
             (''SumBasic'', map (str_sentence L) (summary SumBasicSummarizer)),
             (''KL'', map (str_sentence L) (summary KLSummarizer))]) \<and>
   (fst (sumySummarize_raising L fs filename language num_sents) = Inl e \<longrightarrow>
      (fs filename = None \<and> e = FileNotFoundError filename) \<or> e \<in> library_errors L) \<and>
   (choice \<notin> {1, 2, 3, 4} \<longrightarrow>
      main_script M G P D T (Some choice) fs = (Inr (), fs, menu @ [''Wrong choice'']))"
proof (intro conjI impI)
  assume "Tokenizer L language = Inr () \<and> fs filename = Some body \<and>
    from_file L body language = Inr document \<and> Stemmer L language = Inr () \<and>
    get_stop_words L language = Inr () \<and>
    (\<forall>alg. call_summarizer L alg language document num_sents = Inr (summary alg))"
  then have "sumySummarize_raising L fs filename language num_sents =
     (Inr [(''Luhn'', map (str_sentence L) (summary LuhnSummarizer)),
           (''LSA'', map (str_sentence L) (summary LsaSummarizer)),
           (''TextRank'', map (str_sentence L) (summary TextRankSummarizer)),
           (''LexRank'', map (str_sentence L) (summary LexRankSummarizer)),
           (''SumBasic'', map (str_sentence L) (summary SumBasicSummarizer)),
           (''KL'', map (str_sentence L) (summary KLSummarizer))], fs)"
    by (intro sumySummarize_raising_Inr) blast+
  then show "fst (sumySummarize_raising L fs filename language num_sents) =
        Inr [(''Luhn'', map (str_sentence L) (summary LuhnSummarizer)),
             (''LSA'', map (str_sentence L) (summary LsaSummarizer)),
             (''TextRank'', map (str_sentence L) (summary TextRankSummarizer)),
             (''LexRank'', map (str_sentence L) (summary LexRankSummarizer)),
             (''SumBasic'', map (str_sentence L) (summary SumBasicSummarizer)),
             (''KL'', map (str_sentence L) (summary KLSummarizer))]"
    by simp
next
  assume "fst (sumySummarize_raising L fs filename language num_sents) = Inl e"
  then show "(fs filename = None \<and> e = FileNotFoundError filename) \<or> e \<in> library_errors L"
    by (rule sumySummarize_raising_Inl)
next
  assume "choice \<notin> {1, 2, 3, 4}"
  then show "main_script M G P D T (Some choice) fs = (Inr (), fs, menu @ [''Wrong choice''])"
    by (rule main_script_wrong_choice)
qed

lemma example_raising_language:
  "fst (sumySummarize_raising example_sumy_calls example_files ''sample_text.txt''
          ''klingon'' 2) = Inl LookupError"
  by (simp add: sumySummarize_raising_def example_sumy_calls_def)

lemma example_raising_missing:
  "fst (sumySummarize_raising example_sumy_calls example_files ''missing.txt''
          ''english'' 2) = Inl (FileNotFoundError ''missing.txt'')"
  by (simp add: sumySummarize_raising_def read_file_def example_sumy_calls_def
        example_files_def)

theorem sumySummarize_raises_nothing_of_its_own_witness:
  "(5::int) \<notin> {1, 2, 3, 4} \<and>
   fst (sumySummarize_raising example_sumy_calls example_files ''sample_text.txt''
          ''english'' (- 3)) =
     Inr [(''Luhn'', []), (''LSA'', []), (''TextRank'', []), (''LexRank'', []),
          (''SumBasic'', []), (''KL'', [])] \<and>
   fst (sumySummarize_raising example_sumy_calls example_files ''sample_text.txt''
          ''klingon'' 2) = Inl LookupError \<and>
   LookupError \<in> library_errors example_sumy_calls \<and>
   fst (sumySummarize_raising example_sumy_calls example_files ''missing.txt''
          ''english'' 2) = Inl (FileNotFoundError ''missing.txt'') \<and>
   example_files ''missing.txt'' = None \<and>
   main_script example_sumy example_gensim example_pyteaser example_dumps example_pytextrank
     (Some 5) example_files = (Inr (), example_files, menu @ [''Wrong choice''])"
proof -
  have lang: "LookupError \<in> library_errors example_sumy_calls"
    using sumySummarize_raises_nothing_of_its_own
            [where L = example_sumy_calls and fs = example_files
               and filename = "''sample_text.txt''" and language = "''klingon''"
               and num_sents = 2 and e = LookupError and choice = 5]
          example_raising_language
    by blast
  have negative: "fst (sumySummarize_raising example_sumy_calls example_files
      ''sample_text.txt'' ''english'' (- 3)) =
     Inr [(''Luhn'', []), (''LSA'', []), (''TextRank'', []), (''LexRank'', []),
          (''SumBasic'', []), (''KL'', [])]"
    using sumySummarize_raises_nothing_of_its_own
            [where L = example_sumy_calls and fs = example_files
               and filename = "''sample_text.txt''" and language = "''english''"
               and num_sents = "- 3"
               and body = "''The '' @ [CHR 0x22] @ ''cat'' @ [CHR 0x22] @ '' sat.''
                             @ [CHR 0x0A] @ ''Dogs bark.''"
               and document = "[''The '' @ [CHR 0x22] @ ''cat'' @ [CHR 0x22] @ '' sat.'',
                                ''Dogs bark.'']"
               and summary = "\<lambda>alg. []" and e = LookupError and choice = 5
               and M = example_sumy and G = example_gensim and P = example_pyteaser
               and D = example_dumps and T = example_pytextrank]
    by (elim conjE) (simp add: example_sumy_calls_def example_files_def slice_to_def)
  have missing: "example_files ''missing.txt'' = None"
    by (simp add: example_files_def)
  have wrong: "main_script example_sumy example_gensim example_pyteaser example_dumps
      example_pytextrank (Some 5) example_files
        = (Inr (), example_files, menu @ [''Wrong choice''])"
    using sumySummarize_raises_nothing_of_its_own
            [where choice = 5 and M = example_sumy and G = example_gensim
               and P = example_pyteaser and D = example_dumps and T = example_pytextrank
               and fs = example_files and L = example_sumy_calls
               and filename = "''sample_text.txt''" and language = "''klingon''"
               and num_sents = 2 and e = LookupError and body = "[]" and document = "[]"
               and summary = "\<lambda>alg. []"]
    by (elim conjE) simp
  from lang negative missing wrong example_raising_language example_raising_missing
  show ?thesis
    by simp
qed

subsection \<open>What the summarisers do to the file system\<close>

text \<open>
  Claim C8 as written: every summarisation call is pure, reads and writes no file and
  changes nothing outside the call. \<open>pytrankSummarize\<close> writes files: on the sample file,
  \<open>o3.json\<close> does not exist before the call and exists after it.
\<close>

theorem pytrankSummarize_writes_files_example:
  "example_files ''o3.json'' = None \<and>
   snd (pytrankSummarize example_dumps example_pytextrank example_files ''sample_text.txt'')
     ''o3.json'' \<noteq> None"
  using pytrankSummarize_writes
          [of example_files "''sample_text.txt''" _ example_dumps example_pytextrank]
  by (auto simp add: example_files_def)

text \<open>
  Claim C8, amended: every summariser reads its input file. \<open>sumySummarize\<close>,
  \<open>gensimSummarize\<close> and \<open>pyteasSummarize\<close> write nothing: the file system after the
  call is the one before it. \<open>pytrankSummarize\<close> is not pure: on a readable input it
  writes the JSON file made by \<open>createJSON\<close> and the files \<open>o1.json\<close>, \<open>o2.json\<close> and
  \<open>o3.json\<close>, and it leaves every other file as it was. (That a call on the same input
  and the same file system returns the same result is how the model is built: each
  function is a function of its arguments, the files and the library.)
\<close>

theorem summarizers_file_effects:
  "snd (sumySummarize L fs filename language num_sents) = fs \<and>
   snd (gensimSummarize G fs filename ratio) = fs \<and>
   snd (pyteasSummarize P fs filename title num_sents) = fs \<and>
   (\<forall>p. p \<notin> {jsonFile_of filename, ''o1.json'', ''o2.json'', ''o3.json''} \<longrightarrow>
        snd (pytrankSummarize D T fs filename) p = fs p) \<and>
   (fs filename \<noteq> None \<longrightarrow>
      {jsonFile_of filename, ''o1.json'', ''o2.json'', ''o3.json''}
        \<subseteq> dom (snd (pytrankSummarize D T fs filename)))"
proof (intro conjI allI impI)
  show "snd (sumySummarize L fs filename language num_sents) = fs"
    by (simp add: sumySummarize_def Let_def split: sum.splits)
  show "snd (gensimSummarize G fs filename ratio) = fs"
    by (simp add: gensimSummarize_def Let_def split: sum.splits)
  show "snd (pyteasSummarize P fs filename title num_sents) = fs"
    by (simp add: pyteasSummarize_def Let_def split: sum.splits)
next
  fix p
  assume "p \<notin> {jsonFile_of filename, ''o1.json'', ''o2.json'', ''o3.json''}"
  then show "snd (pytrankSummarize D T fs filename) p = fs p"
    by (rule pytrankSummarize_frame)
next
  assume "fs filename \<noteq> None"
  then obtain body where "fs filename = Some body"
    by blast
  then show "{jsonFile_of filename, ''o1.json'', ''o2.json'', ''o3.json''}
        \<subseteq> dom (snd (pytrankSummarize D T fs filename))"
    by (rule pytrankSummarize_writes)
qed

theorem summarizers_file_effects_witness:
  "example_files ''sample_text.txt'' \<noteq> None \<and>
   ''sample_text.txt'' \<notin> {jsonFile_of ''sample_text.txt'', ''o1.json'', ''o2.json'', ''o3.json''} \<and>
   snd (sumySummarize example_sumy example_files ''sample_text.txt'' ''english'' 2)
     = example_files \<and>
   snd (pytrankSummarize example_dumps example_pytextrank example_files ''sample_text.txt'')
     ''sample_text.txt'' = example_files ''sample_text.txt'' \<and>
   {''sample_text.json'', ''o1.json'', ''o2.json'', ''o3.json''}
     \<subseteq> dom (snd (pytrankSummarize example_dumps example_pytextrank example_files
                      ''sample_text.txt''))"
  using summarizers_file_effects
          [of example_sumy example_files "''sample_text.txt''" "''english''" 2
              example_gensim "2 / 10" example_pyteaser "''Topic Modelling''"
              example_dumps example_pytextrank]
  by (simp add: example_files_sample jsonFile_of_def)

subsection \<open>\<open>createJSON\<close> and \<open>pyteasSummarize\<close>\<close>

text \<open>
  Claim C9: for an input file that can be read, \<open>createJSON\<close> writes a file named by
  the part of the file name before its first dot followed by \<open>.json\<close>; the file holds
  the JSON object with \<open>id\<close> 707 and \<open>text\<close> the contents of the input file without its
  double quotes; the new file name is returned.
\<close>

theorem createJSON_writes_json:
  assumes "fs filename = Some body"
  shows "createJSON dumps fs filename =
     (Inr (takeWhile (\<lambda>c. c \<noteq> CHR ''.'') filename @ ''.json''),
      fs(takeWhile (\<lambda>c. c \<noteq> CHR ''.'') filename @ ''.json'' \<mapsto>
           dumps (JObject [(''id'', JInt 707),
                           (''text'', JString (filter (\<lambda>c. c \<noteq> CHR 0x22) body))])))"
  using assms createJSON_Some [of fs filename body dumps]
  by (simp add: jsonFile_of_def remove_quotes_def)

theorem createJSON_writes_json_witness:
  "example_files ''sample_text.txt'' \<noteq> None \<and>
   fst (createJSON example_dumps example_files ''sample_text.txt'') = Inr ''sample_text.json'' \<and>
   snd (createJSON example_dumps example_files ''sample_text.txt'') ''sample_text.json'' =
     Some (''{'' @ [CHR 0x22] @ ''id'' @ [CHR 0x22] @ '': 707, '' @ [CHR 0x22] @ ''text''
           @ [CHR 0x22] @ '': '' @ [CHR 0x22] @ ''The cat sat.'' @ [CHR 0x0A] @ ''Dogs bark.''
           @ [CHR 0x22] @ ''}'')"
  using createJSON_writes_json [of example_files "''sample_text.txt''" _ example_dumps]
  by (simp add: example_files_sample)



subsection \<open>Luhn: sentences without top words\<close>

lemma significant_positions_empty:
  assumes "set (terms_of s) \<inter> tw = {}"
  shows "significant_positions tw s = []"
proof -
  have "\<not> (\<not> stopword (tokens s ! i) \<and> stem (tokens s ! i) \<in> tw)"
    if "i < length (tokens s)" for i
  proof
    assume h: "\<not> stopword (tokens s ! i) \<and> stem (tokens s ! i) \<in> tw"
    have "tokens s ! i \<in> set (tokens s)"
      using that by simp
    with h have "stem (tokens s ! i) \<in> set (terms_of s)"
      by (auto simp add: terms_of_def)
    with h assms show False
      by blast
  qed
  then show ?thesis
    by (simp add: significant_positions_def filter_empty_conv)
qed

lemma luhn_score_no_top_words:
  "set (terms_of s) \<inter> tw = {} \<Longrightarrow> luhn_score tw gap s = 0"
  by (simp add: luhn_score_def significant_positions_empty)

lemma cluster_score_nonneg: "0 \<le> cluster_score c"
  by (simp add: cluster_score_def)

lemma fold_max_ge: "(a::rat) \<le> fold max xs a"
  by (induction xs arbitrary: a) (auto intro: order_trans [OF max.cobounded2])

lemma luhn_score_nonneg: "0 \<le> luhn_score tw gap s"
  by (auto simp add: luhn_score_def split: list.splits
        intro: order_trans [OF cluster_score_nonneg fold_max_ge])

text \<open>In a list sorted by a key, an element with a smaller key comes earlier.\<close>

lemma sorted_key_before:
  assumes "sorted (map f xs)" and "r < length xs" and "y \<in> set xs" and "f y < f (xs ! r)"
  shows "y \<in> set (take r xs)"
proof -
  from assms(3) obtain r' where r': "r' < length xs" "xs ! r' = y"
    by (auto simp add: in_set_conv_nth)
  have "r' < r"
  proof (rule ccontr)
    assume "\<not> r' < r"
    then have "r \<le> r'" by simp
    with assms(1) r'(1) have "map f xs ! r \<le> map f xs ! r'"
      by (simp add: sorted_iff_nth_mono)
    with assms(2,4) r' show False
      by simp
  qed
  with r' show ?thesis
    by (auto simp add: in_set_conv_nth)
qed

text \<open>
  With scores that are not negative, a position of score 0 is kept by the selector only
  after every position of nonzero score.
\<close>

lemma zero_score_selected:
  fixes scores :: "rat list"
  assumes nonneg: "\<forall>x \<in> set scores. 0 \<le> x"
    and sel: "i \<in> set (select_top scores k)"
    and zero: "scores ! i = 0"
  shows "card {j. j < length scores \<and> scores ! j \<noteq> 0} < k"
proof -
  let ?f = "\<lambda>i. (- (scores ! i), i)"
  let ?rk = "ranking scores"
  have set_rk: "set ?rk = {0..<length scores}"
    by (simp add: ranking_def)
  have srt: "sorted (map ?f ?rk)"
    unfolding ranking_def by (rule sorted_sort_key)
  from sel have "i \<in> set (take k ?rk)"
    by (simp add: select_top_def)
  then obtain r where r: "r < k" "r < length ?rk" "?rk ! r = i"
    by (auto simp add: in_set_conv_nth)
  have "{j. j < length scores \<and> scores ! j \<noteq> 0} \<subseteq> set (take r ?rk)"
  proof
    fix j
    assume "j \<in> {j. j < length scores \<and> scores ! j \<noteq> 0}"
    then have j: "j < length scores" "scores ! j \<noteq> 0"
      by simp_all
    with nonneg have "0 < scores ! j"
      by (metis nth_mem order_less_le)
    then have "?f j < ?f (?rk ! r)"
      using zero r(3) by (simp add: less_prod_def)
    moreover have "j \<in> set ?rk"
      using j(1) set_rk by simp
    ultimately show "j \<in> set (take r ?rk)"
      using sorted_key_before [OF srt r(2)] by blast
  qed
  then have "card {j. j < length scores \<and> scores ! j \<noteq> 0} \<le> card (set (take r ?rk))"
    by (simp add: card_mono)
  also have "\<dots> \<le> length (take r ?rk)"
    by (rule card_length)
  also have "\<dots> \<le> r"
    by simp
  finally show ?thesis
    using r(1) by simp
qed

text \<open>
  Claim C7, on the Luhn scorer and the selector as the spec describes them: a sentence
  none of whose terms is a top word has score 0, and when such a sentence is in the output
  for \<open>k\<close>, then \<open>k\<close> exceeds the number of sentences whose score is not 0.
\<close>

theorem luhn_zero_top_words:
  assumes "i < length doc"
    and "set (terms_of (doc ! i)) \<inter> set (topWords (top_word_count cfg) doc) = {}"
  shows "luhn_scores cfg doc ! i = 0 \<and>
         (i \<in> set (luhn_select cfg doc k) \<longrightarrow>
            card {j. j < length doc \<and> luhn_scores cfg doc ! j \<noteq> 0} < k)"
proof
  show z: "luhn_scores cfg doc ! i = 0"
    using assms by (simp add: luhn_scores_def luhn_score_no_top_words)
  have nonneg: "\<forall>x \<in> set (luhn_scores cfg doc). 0 \<le> x"
    by (auto simp add: luhn_scores_def luhn_score_nonneg)
  show "i \<in> set (luhn_select cfg doc k) \<longrightarrow>
            card {j. j < length doc \<and> luhn_scores cfg doc ! j \<noteq> 0} < k"
  proof
    assume "i \<in> set (luhn_select cfg doc k)"
    then have "i \<in> set (select_top (luhn_scores cfg doc) k)"
      by (simp add: luhn_select_def)
    from zero_score_selected [OF nonneg this z]
    show "card {j. j < length doc \<and> luhn_scores cfg doc ! j \<noteq> 0} < k"
      by (simp add: luhn_scores_def)
  qed
qed

lemma example_topWords: "topWords 2 example_document = [''cat'', ''sat'']"
  by code_simp

lemma example_terms: "terms_of (example_document ! 2) = [''dogs'', ''bark'', ''loudly'']"
  by code_simp

lemma example_luhn_select:
  "luhn_select (default_configuration\<lparr>top_word_count := 2\<rparr>) example_document 3 = [0, 1, 2]"
  by code_simp

lemma example_luhn_select_2:
  "luhn_select (default_configuration\<lparr>top_word_count := 2\<rparr>) example_document 2 = [0, 1]"
  by code_simp

theorem luhn_zero_top_words_witness:
  "2 < length example_document \<and>
   set (terms_of (example_document ! 2)) \<inter> set (topWords 2 example_document) = {} \<and>
   luhn_scores (default_configuration\<lparr>top_word_count := 2\<rparr>) example_document ! 2 = 0 \<and>
   2 \<in> set (luhn_select (default_configuration\<lparr>top_word_count := 2\<rparr>) example_document 3) \<and>
   2 \<notin> set (luhn_select (default_configuration\<lparr>top_word_count := 2\<rparr>) example_document 2) \<and>
   card {j. j < length example_document \<and>
            luhn_scores (default_configuration\<lparr>top_word_count := 2\<rparr>) example_document ! j \<noteq> 0}
     < 3"
proof -
  have len: "2 < length example_document"
    by (simp add: example_document_def)
  have disj: "set (terms_of (example_document ! 2))
                \<inter> set (topWords (top_word_count (default_configuration\<lparr>top_word_count := 2\<rparr>))
                         example_document) = {}"
    by (simp add: example_topWords example_terms)
  from luhn_zero_top_words [OF len disj, of 3] show ?thesis
    using len by (simp add: example_topWords example_terms example_luhn_select
                    example_luhn_select_2)
qed

subsection \<open>Graph ranking: the power iteration is bounded\<close>

text \<open>
  What the loop returns, from any iteration count \<open>t\<close> below the cap: the iterate after
  \<open>n - t\<close> more steps, where \<open>n\<close> is the first count at which the change fell below
  epsilon, or the cap.
\<close>

lemma power_iteration_general:
  "t \<le> cap \<Longrightarrow>
   (case power_iteration d eps cap M t p of (q, n, c) \<Rightarrow>
      t \<le> n \<and> n \<le> cap \<and> q = (rank_step d M ^^ (n - t)) p \<and>
      (c \<longrightarrow> t < n \<and> l1_distance q ((rank_step d M ^^ (n - t - 1)) p) < eps) \<and>
      (\<not> c \<longrightarrow> n = cap) \<and>
      (\<forall>m. 0 < m \<and> m < n - t \<longrightarrow>
          \<not> l1_distance ((rank_step d M ^^ m) p) ((rank_step d M ^^ (m - 1)) p) < eps))"
proof (induction d eps cap M t p rule: power_iteration.induct)
  case (1 d eps cap M t p)
  show ?case
  proof (cases "t < cap")
    case False
    then have "power_iteration d eps cap M t p = (p, t, False)"
      by (simp add: power_iteration.simps [of d eps cap M t p])
    with "1.prems" False show ?thesis
      by simp
  next
    case True
    note tc = True
    let ?p' = "rank_step d M p"
    show ?thesis
    proof (cases "l1_distance ?p' p < eps")
      case True
      with tc have "power_iteration d eps cap M t p = (?p', Suc t, True)"
        by (simp add: power_iteration.simps [of d eps cap M t p])
      with tc True show ?thesis
        by auto
    next
      case False
      obtain q n c where r: "power_iteration d eps cap M (Suc t) ?p' = (q, n, c)"
        by (cases "power_iteration d eps cap M (Suc t) ?p'") auto
      have ih: "Suc t \<le> n \<and> n \<le> cap \<and> q = (rank_step d M ^^ (n - Suc t)) ?p' \<and>
        (c \<longrightarrow> Suc t < n \<and> l1_distance q ((rank_step d M ^^ (n - Suc t - 1)) ?p') < eps) \<and>
        (\<not> c \<longrightarrow> n = cap) \<and>
        (\<forall>m. 0 < m \<and> m < n - Suc t \<longrightarrow>
          \<not> l1_distance ((rank_step d M ^^ m) ?p') ((rank_step d M ^^ (m - 1)) ?p') < eps)"
        using "1.IH" [OF tc refl False] tc unfolding r by auto
      have bounds: "Suc t \<le> n" "n \<le> cap"
        using ih by blast+
      have q: "q = (rank_step d M ^^ (n - Suc t)) ?p'"
        using ih by blast
      have ihc: "Suc t < n \<and> l1_distance q ((rank_step d M ^^ (n - Suc t - 1)) ?p') < eps" if c
        using ih that by blast
      have ihn: "n = cap" if "\<not> c"
        using ih that by blast
      have ihm: "\<not> l1_distance ((rank_step d M ^^ m) ?p') ((rank_step d M ^^ (m - 1)) ?p') < eps"
        if "0 < m" "m < n - Suc t" for m
        using ih that by blast
      have eq: "power_iteration d eps cap M t p = (q, n, c)"
        using tc False r by (simp add: power_iteration.simps [of d eps cap M t p])
      have n: "n - t = Suc (n - Suc t)"
        using bounds by arith
      have q': "q = (rank_step d M ^^ (n - t)) p"
        unfolding n q by (simp add: funpow_swap1)
      have later: "\<not> l1_distance ((rank_step d M ^^ m) p) ((rank_step d M ^^ (m - 1)) p) < eps"
        if m: "0 < m" "m < n - t" for m
      proof (cases m)
        case 0
        with m show ?thesis by simp
      next
        case (Suc m')
        show ?thesis
        proof (cases m')
          case 0
          with Suc False show ?thesis by simp
        next
          case (Suc m'')
          have "0 < m'" "m' < n - Suc t"
            using Suc \<open>m = Suc m'\<close> m n by simp_all
          then have "\<not> l1_distance ((rank_step d M ^^ m') ?p')
                        ((rank_step d M ^^ (m' - 1)) ?p') < eps"
            by (rule ihm)
          then show ?thesis
            unfolding \<open>m = Suc m'\<close> Suc by (simp add: funpow_swap1)
        qed
      qed
      have conv: "t < n \<and> l1_distance q ((rank_step d M ^^ (n - t - 1)) p) < eps" if c
      proof -
        from ihc [OF that]
        have a: "Suc t < n" "l1_distance q ((rank_step d M ^^ (n - Suc t - 1)) ?p') < eps"
          by simp_all
        from a(1) obtain j where j: "n - Suc t = Suc j"
          by (cases "n - Suc t") auto
        then have j': "n - t - 1 = Suc j"
          by arith
        from a(2) have "l1_distance q ((rank_step d M ^^ Suc j) p) < eps"
          unfolding j by (simp add: funpow_swap1)
        then show ?thesis
          using a(1) unfolding j' by simp
      qed
      have "t \<le> n"
        using bounds by simp
      with bounds q' conv ihn later show ?thesis
        unfolding eq by auto
    qed
  qed
qed

text \<open>
  Claim C6, on the power iteration as the spec describes it: the ranking always returns,
  after at most \<open>max_iterations\<close> steps \<open>p \<mapsto> (1 - d) + d \<cdot> M\<^sup>T p\<close> from the uniform vector.
  It stops at the first step whose L1 change is below epsilon; when no step up to the cap
  is, it returns the iterate of the last step made, flagged as not converged, and no
  error. The defaults are \<open>d = 0.85\<close>, epsilon \<open>1e-4\<close> and a cap of 100.
\<close>

theorem graph_rank_bounded:
  "(case graph_rank cfg M of (q, n, converged) \<Rightarrow>
      n \<le> max_iterations cfg \<and>
      q = (rank_step (damping_factor cfg) M ^^ n) (uniform (length M)) \<and>
      (converged \<longrightarrow> 0 < n \<and>
         l1_distance q ((rank_step (damping_factor cfg) M ^^ (n - 1)) (uniform (length M)))
           < convergence_epsilon cfg) \<and>
      (\<not> converged \<longrightarrow> n = max_iterations cfg) \<and>
      (\<forall>m. 0 < m \<and> m < n \<longrightarrow>
         \<not> l1_distance ((rank_step (damping_factor cfg) M ^^ m) (uniform (length M)))
              ((rank_step (damping_factor cfg) M ^^ (m - 1)) (uniform (length M)))
             < convergence_epsilon cfg)) \<and>
   (\<forall>p j. j < length p \<longrightarrow>
      rank_step (damping_factor cfg) M p ! j =
        (1 - damping_factor cfg) + damping_factor cfg * (\<Sum>i<length p. M ! i ! j * p ! i)) \<and>
   damping_factor default_configuration = 85 / 100 \<and>
   convergence_epsilon default_configuration = 1 / 10000 \<and>
   max_iterations default_configuration = 100"
proof (intro conjI allI impI)
  show "case graph_rank cfg M of (q, n, converged) \<Rightarrow>
      n \<le> max_iterations cfg \<and>
      q = (rank_step (damping_factor cfg) M ^^ n) (uniform (length M)) \<and>
      (converged \<longrightarrow> 0 < n \<and>
         l1_distance q ((rank_step (damping_factor cfg) M ^^ (n - 1)) (uniform (length M)))
           < convergence_epsilon cfg) \<and>
      (\<not> converged \<longrightarrow> n = max_iterations cfg) \<and>
      (\<forall>m. 0 < m \<and> m < n \<longrightarrow>
         \<not> l1_distance ((rank_step (damping_factor cfg) M ^^ m) (uniform (length M)))
              ((rank_step (damping_factor cfg) M ^^ (m - 1)) (uniform (length M)))
             < convergence_epsilon cfg)"
    using power_iteration_general
            [where t = 0 and cap = "max_iterations cfg" and d = "damping_factor cfg"
               and eps = "convergence_epsilon cfg" and M = M and p = "uniform (length M)"]
    by (simp add: graph_rank_def)
next
  fix p :: vector and j
  assume "j < length p"
  then show "rank_step (damping_factor cfg) M p ! j =
        (1 - damping_factor cfg) + damping_factor cfg * (\<Sum>i<length p. M ! i ! j * p ! i)"
    by (simp add: rank_step_def transpose_mult_def interv_sum_list_conv_sum_set_nat
          atLeast0LessThan)
qed (simp_all add: default_configuration_def)

lemma example_rank_cap:
  "graph_rank (default_configuration\<lparr>max_iterations := 3\<rparr>) [[0, 1], [1, 0]] =
     ([11087 / 16000, 11087 / 16000], 3, False)"
  by code_simp

lemma example_rank_eps:
  "graph_rank (default_configuration\<lparr>convergence_epsilon := 1 / 2\<rparr>) [[0, 1], [1, 0]] =
     ([23 / 40, 23 / 40], 1, True)"
  by code_simp

theorem graph_rank_bounded_witness:
  "graph_rank (default_configuration\<lparr>max_iterations := 3\<rparr>) [[0, 1], [1, 0]] =
     ([11087 / 16000, 11087 / 16000], 3, False) \<and>
   (rank_step (85 / 100) [[0, 1], [1, 0]] ^^ 3) (uniform 2) = [11087 / 16000, 11087 / 16000] \<and>
   \<not> l1_distance ((rank_step (85 / 100) [[0, 1], [1, 0]] ^^ 2) (uniform 2))
        ((rank_step (85 / 100) [[0, 1], [1, 0]] ^^ (2 - 1)) (uniform 2)) < 1 / 10000 \<and>
   graph_rank (default_configuration\<lparr>convergence_epsilon := 1 / 2\<rparr>) [[0, 1], [1, 0]] =
     ([23 / 40, 23 / 40], 1, True) \<and>
   l1_distance [23 / 40, 23 / 40] ((rank_step (85 / 100) [[0, 1], [1, 0]] ^^ (1 - 1)) (uniform 2))
     < 1 / 2"
proof -
  let ?M = "[[0, 1], [1, 0]] :: matrix"
  let ?c = "default_configuration\<lparr>max_iterations := 3\<rparr>"
  let ?e = "default_configuration\<lparr>convergence_epsilon := 1 / 2\<rparr>"
  have c: "damping_factor ?c = 85 / 100" "convergence_epsilon ?c = 1 / 10000"
    "max_iterations ?c = 3"
    by (simp_all add: default_configuration_def)
  have e: "damping_factor ?e = 85 / 100" "convergence_epsilon ?e = 1 / 2"
    by (simp_all add: default_configuration_def)
  have len: "length ?M = 2"
    by simp
  have "case graph_rank ?c ?M of (q, n, converged) \<Rightarrow>
      n \<le> max_iterations ?c \<and>
      q = (rank_step (damping_factor ?c) ?M ^^ n) (uniform (length ?M)) \<and>
      (converged \<longrightarrow> 0 < n \<and>
         l1_distance q ((rank_step (damping_factor ?c) ?M ^^ (n - 1)) (uniform (length ?M)))
           < convergence_epsilon ?c) \<and>
      (\<not> converged \<longrightarrow> n = max_iterations ?c) \<and>
      (\<forall>m. 0 < m \<and> m < n \<longrightarrow>
         \<not> l1_distance ((rank_step (damping_factor ?c) ?M ^^ m) (uniform (length ?M)))
              ((rank_step (damping_factor ?c) ?M ^^ (m - 1)) (uniform (length ?M)))
             < convergence_epsilon ?c)"
    using graph_rank_bounded [of ?c ?M] by (rule conjunct1)
  then have cap: "[11087 / 16000, 11087 / 16000] = (rank_step (85 / 100) ?M ^^ 3) (uniform 2)"
    and all: "\<forall>m. 0 < m \<and> m < 3 \<longrightarrow>
         \<not> l1_distance ((rank_step (85 / 100) ?M ^^ m) (uniform 2))
              ((rank_step (85 / 100) ?M ^^ (m - 1)) (uniform 2)) < 1 / 10000"
    unfolding example_rank_cap c len by simp_all
  have two: "0 < (2::nat) \<and> (2::nat) < 3"
    by simp
  from all two have step2: "\<not> l1_distance ((rank_step (85 / 100) ?M ^^ 2) (uniform 2))
        ((rank_step (85 / 100) ?M ^^ (2 - 1)) (uniform 2)) < 1 / 10000"
    by blast
  have "case graph_rank ?e ?M of (q, n, converged) \<Rightarrow>
      n \<le> max_iterations ?e \<and>
      q = (rank_step (damping_factor ?e) ?M ^^ n) (uniform (length ?M)) \<and>
      (converged \<longrightarrow> 0 < n \<and>
         l1_distance q ((rank_step (damping_factor ?e) ?M ^^ (n - 1)) (uniform (length ?M)))
           < convergence_epsilon ?e) \<and>
      (\<not> converged \<longrightarrow> n = max_iterations ?e) \<and>
      (\<forall>m. 0 < m \<and> m < n \<longrightarrow>
         \<not> l1_distance ((rank_step (damping_factor ?e) ?M ^^ m) (uniform (length ?M)))
              ((rank_step (damping_factor ?e) ?M ^^ (m - 1)) (uniform (length ?M)))
             < convergence_epsilon ?e)"
    using graph_rank_bounded [of ?e ?M] by (rule conjunct1)
  then have "True \<longrightarrow> (0::nat) < 1 \<and> l1_distance [23 / 40, 23 / 40]
      ((rank_step (85 / 100) ?M ^^ (1 - 1)) (uniform 2)) < 1 / 2"
    unfolding example_rank_eps e len prod.case by blast
  then have conv: "l1_distance [23 / 40, 23 / 40]
      ((rank_step (85 / 100) ?M ^^ (1 - 1)) (uniform 2)) < 1 / 2"
    by blast
  from cap step2 conv show ?thesis
    unfolding example_rank_cap example_rank_eps by simp
qed

subsection \<open>SumBasic: scores and probability decay\<close>

lemma sumbasic_loop_first_table:
  "sumbasic_loop k doc p remaining = it # its \<Longrightarrow> table it = p"
  by (cases k) (auto simp add: Let_def split: list.splits prod.splits)

lemma sumbasic_loop_first_scores:
  "sumbasic_loop k doc p remaining = it # its \<Longrightarrow>
   scores it = map (\<lambda>i. (i, sumbasic_score p (doc ! i))) remaining"
  by (cases k) (auto simp add: Let_def split: list.splits prod.splits)

lemma sumbasic_loop_rest:
  "sumbasic_loop k doc p remaining = it # its \<Longrightarrow>
   \<exists>k'. its = sumbasic_loop k' doc (decay p (doc ! pick it)) (remove1 (pick it) remaining)"
  by (cases k) (auto simp add: Let_def split: list.splits prod.splits)

lemma sumbasic_score_average:
  "sumbasic_score p s =
     (\<Sum>w\<leftarrow>remdups (terms_of s). p w) / of_nat (length (remdups (terms_of s)))"
  by (simp add: sumbasic_score_def average_def)

lemma sumbasic_loop_iterations:
  assumes "t < length (sumbasic_loop k doc p0 remaining)"
  shows "(\<forall>(j, x) \<in> set (scores (sumbasic_loop k doc p0 remaining ! t)).
            x = (\<Sum>w\<leftarrow>remdups (terms_of (doc ! j)). table (sumbasic_loop k doc p0 remaining ! t) w)
                  / of_nat (length (remdups (terms_of (doc ! j))))) \<and>
         (Suc t < length (sumbasic_loop k doc p0 remaining) \<longrightarrow>
            (\<forall>w. table (sumbasic_loop k doc p0 remaining ! Suc t) w =
                  (if w \<in> set (terms_of (doc ! pick (sumbasic_loop k doc p0 remaining ! t)))
                   then (table (sumbasic_loop k doc p0 remaining ! t) w)\<^sup>2
                   else table (sumbasic_loop k doc p0 remaining ! t) w)))"
  using assms
proof (induction t arbitrary: k p0 remaining)
  case 0
  then obtain it its where run: "sumbasic_loop k doc p0 remaining = it # its"
    by (cases "sumbasic_loop k doc p0 remaining") auto
  note tb = sumbasic_loop_first_table [OF run] and sc = sumbasic_loop_first_scores [OF run]
  obtain k' where its:
    "its = sumbasic_loop k' doc (decay p0 (doc ! pick it)) (remove1 (pick it) remaining)"
    using sumbasic_loop_rest [OF run] by blast
  have "table (its ! 0) = decay p0 (doc ! pick it)" if "its \<noteq> []"
  proof -
    from that obtain it' its' where c: "its = it' # its'"
      by (cases its) auto
    have "sumbasic_loop k' doc (decay p0 (doc ! pick it)) (remove1 (pick it) remaining)
            = it' # its'"
      using its c by simp
    from sumbasic_loop_first_table [OF this] show ?thesis
      by (simp add: c)
  qed
  then show ?case
    by (auto simp add: run tb sc sumbasic_score_average decay_def)
next
  case (Suc t)
  then obtain it its where run: "sumbasic_loop k doc p0 remaining = it # its"
    by (cases "sumbasic_loop k doc p0 remaining") auto
  obtain k' where its:
    "its = sumbasic_loop k' doc (decay p0 (doc ! pick it)) (remove1 (pick it) remaining)"
    using sumbasic_loop_rest [OF run] by blast
  from Suc.prems have "t < length its"
    by (simp add: run)
  from Suc.IH [of k' "decay p0 (doc ! pick it)" "remove1 (pick it) remaining"] this
  show ?case
    unfolding run its by simp
qed

text \<open>
  Claim C4, on SumBasic as the spec describes it: at every iteration of a run the score
  of each sentence still to choose from is the average of the probabilities in force over
  the distinct terms of the sentence (its words that are not stopwords), and the table of
  the next iteration squares the probability of every term of the sentence just selected
  and leaves the other probabilities as they were.
\<close>

theorem sumbasic_scores_and_decay:
  assumes "t < length (sumbasic_run doc k)"
  shows "(\<forall>(j, x) \<in> set (scores (sumbasic_run doc k ! t)).
            x = (\<Sum>w\<leftarrow>remdups (terms_of (doc ! j)). table (sumbasic_run doc k ! t) w)
                  / of_nat (length (remdups (terms_of (doc ! j))))) \<and>
         (Suc t < length (sumbasic_run doc k) \<longrightarrow>
            (\<forall>w. table (sumbasic_run doc k ! Suc t) w =
                  (if w \<in> set (terms_of (doc ! pick (sumbasic_run doc k ! t)))
                   then (table (sumbasic_run doc k ! t) w)\<^sup>2
                   else table (sumbasic_run doc k ! t) w)))"
  using assms unfolding sumbasic_run_def by (rule sumbasic_loop_iterations)

lemma example_sumbasic_length: "length (sumbasic_run example_document 2) = 2"
  by code_simp

lemma example_sumbasic_pick: "pick (sumbasic_run example_document 2 ! 0) = 0"
  by code_simp

lemma example_sumbasic_scores:
  "scores (sumbasic_run example_document 2 ! 0) = [(0, 1 / 4), (1, 5 / 24), (2, 1 / 8)]"
  by code_simp

lemma example_word_probability:
  "word_probability example_document ''cat'' = 1 / 4 \<and>
   word_probability example_document ''sat'' = 1 / 4 \<and>
   word_probability example_document ''mat'' = 1 / 8"
  by code_simp

lemma example_terms_0: "terms_of (example_document ! 0) = [''cat'', ''sat'']"
  by code_simp

lemma example_terms_1: "terms_of (example_document ! 1) = [''cat'', ''sat'', ''mat'']"
  by code_simp

lemma example_sumbasic_table:
  "table (sumbasic_run example_document 2 ! 0) = word_probability example_document"
proof -
  obtain it its where run: "sumbasic_run example_document 2 = it # its"
    using example_sumbasic_length by (cases "sumbasic_run example_document 2") auto
  then have "table it = word_probability example_document"
    unfolding sumbasic_run_def by (rule sumbasic_loop_first_table)
  with run show ?thesis
    by simp
qed

theorem sumbasic_scores_and_decay_witness:
  "0 < length (sumbasic_run example_document 2) \<and>
   Suc 0 < length (sumbasic_run example_document 2) \<and>
   (1, 5 / 24) \<in> set (scores (sumbasic_run example_document 2 ! 0)) \<and>
   5 / 24 = (\<Sum>w\<leftarrow>remdups (terms_of (example_document ! 1)).
               table (sumbasic_run example_document 2 ! 0) w)
              / of_nat (length (remdups (terms_of (example_document ! 1)))) \<and>
   table (sumbasic_run example_document 2 ! Suc 0) ''cat'' = 1 / 16 \<and>
   table (sumbasic_run example_document 2 ! Suc 0) ''mat'' = 1 / 8"
proof -
  let ?run = "sumbasic_run example_document 2"
  have len: "0 < length ?run" and len': "Suc 0 < length ?run"
    by (simp_all add: example_sumbasic_length)
  have mem: "(1, 5 / 24) \<in> set (scores (?run ! 0))"
    by (simp add: example_sumbasic_scores)
  note inst = sumbasic_scores_and_decay [OF len]
  from inst have "\<forall>(j, x) \<in> set (scores (?run ! 0)).
            x = (\<Sum>w\<leftarrow>remdups (terms_of (example_document ! j)). table (?run ! 0) w)
                  / of_nat (length (remdups (terms_of (example_document ! j))))"
    by (rule conjunct1)
  with mem have score: "5 / 24 = (\<Sum>w\<leftarrow>remdups (terms_of (example_document ! 1)).
               table (?run ! 0) w)
              / of_nat (length (remdups (terms_of (example_document ! 1))))"
    by blast
  from inst len' have dec: "table (?run ! Suc 0) w =
                  (if w \<in> set (terms_of (example_document ! pick (?run ! 0)))
                   then (table (?run ! 0) w)\<^sup>2
                   else table (?run ! 0) w)" for w
    by blast
  have cat: "table (?run ! Suc 0) ''cat'' = 1 / 16"
    unfolding dec [of "''cat''"] example_sumbasic_pick example_terms_0 example_sumbasic_table
    by (simp add: example_word_probability power2_eq_square)
  have mat: "table (?run ! Suc 0) ''mat'' = 1 / 8"
    unfolding dec [of "''mat''"] example_sumbasic_pick example_terms_0 example_sumbasic_table
    by (simp add: example_word_probability)
  from len len' mem score cat mat show ?thesis
    by blast
qed

end
